theory Spec2Isabelle
  imports
    Complex_Main
    "HOL-Library.Multiset"
    "HOL-Library.Char_ord"
    "HOL-Library.List_Lexorder"
    "HOL-Library.Log_Nat"
begin

section \<open>FinSmart: the ledger, the budgets and the projections\<close>

text \<open>
  A shallow embedding of the computations of the FinSmart dashboard: the investment
  projections of \<^verbatim>\<open>Investment_Calculator.py\<close>, the expense history filter of
  \<^verbatim>\<open>Expense_tracker.py\<close>, the budget form and the budget analysis of
  \<^verbatim>\<open>budget_manager.py\<close>, the category totals of \<^verbatim>\<open>data_visualization.py\<close> and
  the weekly planner of \<^verbatim>\<open>app.py\<close>.

  Amounts, rates and percentages are Python floats in the source, and real numbers
  here. Where the rounding of the floats does not decide what is stated (the
  projections, the filter, the budget form and the budget analysis) the arithmetic is the
  exact one of the reals, the decimals of the data model. Where it does (the totals
  by category and the weekly planner) every operation is rounded to the nearest double
  as Python rounds it. Overflow and NaN are outside the model. Whole numbers (years,
  months) are \<open>int\<close>, as Python's are. A Python exception is a value \<open>Inl e\<close> of the
  result.
\<close>

datatype py_error = ZeroDivisionError | ValueError

subsection \<open>Float operations that can raise\<close>

text \<open>\<^verbatim>\<open>a / b\<close> on Python floats raises ZeroDivisionError when \<open>b\<close> is zero.\<close>

definition py_div :: "real \<Rightarrow> real \<Rightarrow> py_error + real" where
  "py_div a b = (if b = 0 then Inl ZeroDivisionError else Inr (a / b))"

text \<open>
  \<^verbatim>\<open>x ** n\<close> for a float \<open>x\<close> and a Python int \<open>n\<close>: a negative power of zero raises
  ZeroDivisionError.
\<close>

definition py_pow_int :: "real \<Rightarrow> int \<Rightarrow> py_error + real" where
  "py_pow_int x n =
     (if 0 \<le> n then Inr (x ^ nat n)
      else if x = 0 then Inl ZeroDivisionError
      else Inr (1 / x ^ nat (- n)))"

subsection \<open>Float operations with their rounding\<close>

text \<open>
  A finite double is a real \<open>m * 2 ^ e\<close> with an integer \<open>m\<close> of at most 53 bits. An
  arithmetic operation on doubles returns the double nearest to the exact result, and
  of two nearest ones the one with the even \<open>m\<close>. Results beyond the largest double
  (which Python gives as \<^verbatim>\<open>inf\<close>) and below \<open>2 ^ -1022\<close> in size (where doubles have
  fewer bits) are outside the model.

  \<open>round_half_even y\<close> is the integer nearest to \<open>y\<close>, the even one of two.
\<close>

definition round_half_even :: "real \<Rightarrow> int" where
  "round_half_even y =
     (let f = \<lfloor>y\<rfloor>; r = y - of_int f
      in if r < 1 / 2 then f else if 1 / 2 < r then f + 1 else if even f then f else f + 1)"

text \<open>For \<open>0 < x\<close>: the \<open>k\<close> with \<open>2 ^ k \<le> x < 2 ^ (k + 1)\<close>.\<close>

definition floor_log2 :: "real \<Rightarrow> int" where
  "floor_log2 x = (if 1 \<le> x then bitlen \<lfloor>x\<rfloor> - 1 else - bitlen (\<lceil>1 / x\<rceil> - 1))"

text \<open>\<open>x * 2 ^ e\<close>, for an exponent of either sign.\<close>

definition scale2 :: "real \<Rightarrow> int \<Rightarrow> real" where
  "scale2 x e = (if 0 \<le> e then x * 2 ^ nat e else x / 2 ^ nat (- e))"

text \<open>The double nearest to \<open>x\<close>: \<open>x\<close> is scaled to 53 bits before the point and rounded.\<close>

definition float_round :: "real \<Rightarrow> real" where
  "float_round x =
     (if x = 0 then 0
      else let e = floor_log2 \<bar>x\<bar> - 52
           in scale2 (of_int (round_half_even (scale2 x (- e)))) e)"

text \<open>
  \<^verbatim>\<open>a + b\<close>, \<^verbatim>\<open>a - b\<close>, \<^verbatim>\<open>a * b\<close> and \<^verbatim>\<open>a / b\<close> on floats (the divisors of the source
  that are modelled with these are the constants 7 and 100). A decimal literal such as
  \<^verbatim>\<open>0.1\<close> is the double \<open>float_round 0.1\<close>.
\<close>

definition float_add :: "real \<Rightarrow> real \<Rightarrow> real" where
  "float_add a b = float_round (a + b)"

definition float_sub :: "real \<Rightarrow> real \<Rightarrow> real" where
  "float_sub a b = float_round (a - b)"

definition float_mul :: "real \<Rightarrow> real \<Rightarrow> real" where
  "float_mul a b = float_round (a * b)"

definition float_div :: "real \<Rightarrow> real \<Rightarrow> real" where
  "float_div a b = float_round (a / b)"

text \<open>A running total: the values are added to 0 one by one, in the order of the list.\<close>

definition float_sum :: "real list \<Rightarrow> real" where
  "float_sum xs = fold (\<lambda>x total. float_add total x) xs 0"

subsection \<open>Investment_Calculator.py: calculate_sip_returns\<close>

text \<open>The returned DataFrame, column by column.\<close>

record sip_frame =
  Month :: "int list"
  Total_Investment :: "real list"
  Investment_Value :: "real list"

text \<open>
  \<^verbatim>\<open>monthly_rate = (1 + annual_return_rate/100) ** (1/12) - 1\<close>. On a base that is not
  negative Python's float power is the real power \<open>powr\<close> (and \<open>0.0 ** (1/12)\<close> is
  \<open>0.0\<close>, as \<open>0 powr a = 0\<close>). On a negative base (a rate below \<open>-100\<close> percent)
  Python leaves the reals: the result is a complex number, which this model does not
  cover.
\<close>

definition monthly_rate_of :: "real \<Rightarrow> real" where
  "monthly_rate_of annual_return_rate = (1 + annual_return_rate / 100) powr (1 / 12) - 1"

text \<open>One round of the loop \<^verbatim>\<open>for month in range(total_months)\<close>, on the two arrays.\<close>

fun sip_month :: "real \<Rightarrow> real \<Rightarrow> nat \<Rightarrow> real list \<times> real list \<Rightarrow> real list \<times> real list" where
  "sip_month monthly_investment monthly_rate month (total_investment, investment_value) =
     (if month = 0 then
        (total_investment[month := monthly_investment],
         investment_value[month := monthly_investment])
      else
        (total_investment[month := total_investment ! (month - 1) + monthly_investment],
         investment_value[month :=
            investment_value ! (month - 1) * (1 + monthly_rate) + monthly_investment]))"

text \<open>
  \<^verbatim>\<open>np.zeros(total_months)\<close> raises ValueError on a negative length; otherwise both
  arrays start as zeros and the loop fills them from month 0 upwards.
\<close>

definition calculate_sip_returns :: "real \<Rightarrow> real \<Rightarrow> int \<Rightarrow> py_error + sip_frame" where
  "calculate_sip_returns monthly_investment annual_return_rate time_years =
     (let monthly_rate = monthly_rate_of annual_return_rate;
          total_months = time_years * 12
      in if total_months < 0 then Inl ValueError
         else
           let zeros = replicate (nat total_months) (0::real);
               arrays = fold (sip_month monthly_investment monthly_rate)
                          [0..<nat total_months] (zeros, zeros)
           in Inr \<lparr>Month = [1..total_months],
                   Total_Investment = fst arrays,
                   Investment_Value = snd arrays\<rparr>)"

text \<open>
  For the proofs: the value of the investment in month \<open>n + 1\<close>, by the recurrence of
  the loop.
\<close>

fun sip_value :: "real \<Rightarrow> real \<Rightarrow> nat \<Rightarrow> real" where
  "sip_value c r 0 = c"
| "sip_value c r (Suc n) = sip_value c r n * (1 + r) + c"

subsection \<open>Investment_Calculator.py: calculate_lumpsum_returns\<close>

record lumpsum_frame =
  Year :: "int list"
  Lumpsum_Investment_Value :: "real list"

text \<open>
  One round of \<^verbatim>\<open>for i, year in enumerate(years)\<close>. The years come from
  \<^verbatim>\<open>np.arange(0, time_years + 1)\<close>, so they are never negative and the power is the
  ordinary one.
\<close>

fun lumpsum_year :: "real \<Rightarrow> real \<Rightarrow> nat \<times> int \<Rightarrow> real list \<Rightarrow> real list" where
  "lumpsum_year investment_amount annual_return_rate (i, year) investment_value =
     investment_value[i := investment_amount * ((1 + annual_return_rate / 100) ^ nat year)]"

definition calculate_lumpsum_returns :: "real \<Rightarrow> real \<Rightarrow> int \<Rightarrow> lumpsum_frame" where
  "calculate_lumpsum_returns investment_amount annual_return_rate time_years =
     (let years = [0..time_years];
          zeros = replicate (length years) (0::real);
          investment_value = fold (lumpsum_year investment_amount annual_return_rate)
                               (enumerate 0 years) zeros
      in \<lparr>Year = years, Lumpsum_Investment_Value = investment_value\<rparr>)"

subsection \<open>Investment_Calculator.py: the inflation-adjusted final value of the SIP\<close>

text \<open>
  Lines 142 and 143 of \<^verbatim>\<open>show_investment_calculator\<close>:
  \<^verbatim>\<open>real_return_rate = (1 + annual_return_rate/100) / (1 + inflation_rate/100) - 1\<close> and
  \<^verbatim>\<open>monthly_investment * (((1 + real_return_rate) ** (time_years * 12) - 1) / real_return_rate) * (1 + real_return_rate)\<close>.
\<close>

definition sip_inflation_adj_final :: "real \<Rightarrow> real \<Rightarrow> real \<Rightarrow> int \<Rightarrow> py_error + real" where
  "sip_inflation_adj_final monthly_investment annual_return_rate inflation_rate time_years =
     (case py_div (1 + annual_return_rate / 100) (1 + inflation_rate / 100) of
        Inl e \<Rightarrow> Inl e
      | Inr q \<Rightarrow>
          let real_return_rate = q - 1 in
          (case py_pow_int (1 + real_return_rate) (time_years * 12) of
             Inl e \<Rightarrow> Inl e
           | Inr p \<Rightarrow>
               (case py_div (p - 1) real_return_rate of
                  Inl e \<Rightarrow> Inl e
                | Inr g \<Rightarrow> Inr (monthly_investment * g * (1 + real_return_rate)))))"

subsection \<open>The session state\<close>

text \<open>
  A date, as far as the source looks at one: its year and its month (\<^verbatim>\<open>.dt.year\<close>,
  \<^verbatim>\<open>.dt.month\<close>) and its day number (\<^verbatim>\<open>date.toordinal()\<close>), by which dates compare
  and from which \<^verbatim>\<open>pd.Timedelta(days=7)\<close> is subtracted.
\<close>

record py_date =
  date_year :: int
  date_month :: int
  toordinal :: int

text \<open>A row of the expenses DataFrame.\<close>

record expense =
  date :: py_date
  amount :: real
  category :: string
  description :: string

text \<open>
  A Python dict keeps its keys in insertion order: an association list with one pair
  for each key. \<^verbatim>\<open>d[k] = v\<close> overwrites in place or appends.
\<close>

fun dict_set :: "'k \<Rightarrow> 'v \<Rightarrow> ('k \<times> 'v) list \<Rightarrow> ('k \<times> 'v) list" where
  "dict_set k v [] = [(k, v)]"
| "dict_set k v ((k', v') # d) =
     (if k' = k then (k, v) # d else (k', v') # dict_set k v d)"

text \<open>
  \<^verbatim>\<open>st.session_state\<close>: \<^verbatim>\<open>expenses\<close> and \<^verbatim>\<open>budgets\<close> are created by
  \<^verbatim>\<open>app.py\<close> on every run; \<^verbatim>\<open>budget_categories\<close> is absent (\<open>None\<close>) until the
  budget manager is first shown.
\<close>

record session_state =
  expenses :: "expense list"
  budgets :: "(string \<times> real) list"
  budget_categories :: "string list option"

definition init_session :: session_state where
  "init_session = \<lparr>expenses = [], budgets = [], budget_categories = None\<rparr>"

subsection \<open>Expense_tracker.py: adding an expense\<close>

text \<open>
  The submit handler of the expense form (lines 34 to 45) appends the row built from
  the widget values. It checks nothing itself: the amount widget is declared with
  \<^verbatim>\<open>min_value=0.0\<close>.
\<close>

definition add_expense :: "py_date \<Rightarrow> real \<Rightarrow> string \<Rightarrow> string \<Rightarrow> session_state \<Rightarrow> session_state" where
  "add_expense d a c descr st =
     st\<lparr>expenses := expenses st @ [\<lparr>date = d, amount = a, category = c, description = descr\<rparr>]\<rparr>"

subsection \<open>Expense_tracker.py: the expense history filter\<close>

text \<open>The radio button, with the two date inputs of its \<^verbatim>\<open>Custom\<close> choice.\<close>

datatype date_filter = All_time | This_month | Last_7_days | Custom py_date py_date

text \<open>\<^verbatim>\<open>Series.unique()\<close>: the distinct values in order of first appearance.\<close>

definition unique :: "'a list \<Rightarrow> 'a list" where
  "unique xs = rev (remdups (rev xs))"

definition all_categories :: "session_state \<Rightarrow> string list" where
  "all_categories st = unique (map category (expenses st))"

text \<open>The date filter; \<open>today\<close> is \<^verbatim>\<open>datetime.now().date()\<close>.\<close>

definition apply_date_filter :: "py_date \<Rightarrow> date_filter \<Rightarrow> expense list \<Rightarrow> expense list" where
  "apply_date_filter today date_filter filtered =
     (case date_filter of
        This_month \<Rightarrow>
          filter (\<lambda>e. date_month (date e) = date_month today \<and>
                       date_year (date e) = date_year today) filtered
      | Last_7_days \<Rightarrow> filter (\<lambda>e. toordinal (date e) \<ge> toordinal today - 7) filtered
      | Custom start_date end_date \<Rightarrow>
          filter (\<lambda>e. toordinal (date e) \<ge> toordinal start_date \<and>
                       toordinal (date e) \<le> toordinal end_date) filtered
      | All_time \<Rightarrow> filtered)"

text \<open>
  \<^verbatim>\<open>if selected_categories:\<close> is false on the empty list, and the category filter is
  then skipped.
\<close>

definition apply_category_filter :: "string list \<Rightarrow> expense list \<Rightarrow> expense list" where
  "apply_category_filter selected_categories filtered =
     (if selected_categories \<noteq> [] then
        filter (\<lambda>e. category e \<in> set selected_categories) filtered
      else filtered)"

text \<open>
  Lines 95 to 120. The filter works on a copy of the session's table; the session state
  is read and not written.
\<close>

definition filtered_expenses ::
  "py_date \<Rightarrow> date_filter \<Rightarrow> string list \<Rightarrow> session_state \<Rightarrow> expense list" where
  "filtered_expenses today date_filter selected_categories st =
     apply_category_filter selected_categories
       (apply_date_filter today date_filter (expenses st))"

text \<open>\<^verbatim>\<open>filtered_expenses['amount'].sum()\<close>.\<close>

definition total_filtered :: "expense list \<Rightarrow> real" where
  "total_filtered filtered = sum_list (map amount filtered)"

subsection \<open>data_visualization.py: totals by category\<close>



subsection \<open>budget_manager.py: the budget form\<close>

definition default_categories :: "string list" where
  "default_categories =
     [''Food & Drinks'', ''Groceries'', ''Transportation'',
      ''Entertainment'', ''Shopping'', ''Bills & Utilities'',
      ''Education'', ''Housing & Rent'', ''Health'', ''Other'']"

text \<open>The widget values of one run of the page.\<close>

record budget_inputs =
  new_budget :: "string \<Rightarrow> real"
  new_category :: string
  new_category_budget :: real
  submit_button :: bool

text \<open>
  The writes to the session state, one constructor for each kind: line 11
  (the category list is created), lines 63 and 85 (\<^verbatim>\<open>budgets[category] = ...\<close>) and
  line 84 (\<^verbatim>\<open>budget_categories.append(new_category)\<close>).
\<close>

datatype mutation =
    Init_categories
  | Set_budget string real
  | Append_category string

definition registry :: "session_state \<Rightarrow> string list" where
  "registry st = (case budget_categories st of None \<Rightarrow> [] | Some cs \<Rightarrow> cs)"

text \<open>
  \<open>Append_category\<close> is only ever applied after the list has been created (line 11
  comes first in \<^verbatim>\<open>show_budget_manager\<close>).
\<close>

fun apply_mutation :: "mutation \<Rightarrow> session_state \<Rightarrow> session_state" where
  "apply_mutation Init_categories st = st\<lparr>budget_categories := Some default_categories\<rparr>"
| "apply_mutation (Set_budget c v) st = st\<lparr>budgets := dict_set c v (budgets st)\<rparr>"
| "apply_mutation (Append_category c) st = st\<lparr>budget_categories := Some (registry st @ [c])\<rparr>"

text \<open>
  The writes of one run of \<^verbatim>\<open>show_budget_manager\<close>, in program order: the category
  list is created if absent; the form loop stores the widget value of every registered
  category; on submit, a custom category that is not empty and not yet registered is
  appended to the list and then given its budget. \<open>categories_to_budget\<close> is the
  category list as the form reads it on line 46, after line 11.
\<close>

definition categories_to_budget :: "session_state \<Rightarrow> string list" where
  "categories_to_budget st =
     (case budget_categories st of None \<Rightarrow> default_categories | Some cs \<Rightarrow> cs)"

definition budget_manager_mutations :: "budget_inputs \<Rightarrow> session_state \<Rightarrow> mutation list" where
  "budget_manager_mutations inp st =
     (let init = (if budget_categories st = None then [Init_categories] else []);
          form = map (\<lambda>c. Set_budget c (new_budget inp c)) (categories_to_budget st);
          custom =
            (if submit_button inp \<and> new_category inp \<noteq> [] \<and>
                new_category inp \<notin> set (categories_to_budget st)
             then [Append_category (new_category inp),
                   Set_budget (new_category inp) (new_category_budget inp)]
             else [])
      in init @ form @ custom)"

definition run_mutations :: "mutation list \<Rightarrow> session_state \<Rightarrow> session_state" where
  "run_mutations ms st = fold apply_mutation ms st"

definition show_budget_manager :: "budget_inputs \<Rightarrow> session_state \<Rightarrow> session_state" where
  "show_budget_manager inp st = run_mutations (budget_manager_mutations inp st) st"

text \<open>
  The states a session can be in: the initial one, the state after an expense is added,
  and the state after any number of the writes of a run of the budget manager.
\<close>

inductive reachable :: "session_state \<Rightarrow> bool" where
  reachable_init: "reachable init_session"
| reachable_expense: "reachable st \<Longrightarrow> reachable (add_expense d a c descr st)"
| reachable_budget:
    "reachable st \<Longrightarrow> reachable (run_mutations (take n (budget_manager_mutations inp st)) st)"

text \<open>
  For the proofs: along a sequence of writes, the category list is created only where it
  is absent, and every budget is written under a category that is registered at that
  point.
\<close>

fun writes_registered :: "mutation list \<Rightarrow> session_state \<Rightarrow> bool" where
  "writes_registered [] st = True"
| "writes_registered (Init_categories # ms) st =
     (budget_categories st = None \<and> writes_registered ms (apply_mutation Init_categories st))"
| "writes_registered (Set_budget c v # ms) st =
     (c \<in> set (registry st) \<and> writes_registered ms (apply_mutation (Set_budget c v) st))"
| "writes_registered (Append_category c # ms) st =
     writes_registered ms (apply_mutation (Append_category c) st)"

text \<open>Every key of the budget dict is a registered category.\<close>

definition registry_ok :: "session_state \<Rightarrow> bool" where
  "registry_ok st \<longleftrightarrow> set (map fst (budgets st)) \<subseteq> set (registry st)"

text \<open>No amount of the ledger and no budget is negative.\<close>

definition amounts_nonneg :: "session_state \<Rightarrow> bool" where
  "amounts_nonneg st \<longleftrightarrow>
     list_all (\<lambda>e. 0 \<le> amount e) (expenses st) \<and> list_all (\<lambda>(c, v). 0 \<le> v) (budgets st)"

text \<open>
  What \<^verbatim>\<open>min_value=0.0\<close> grants of the values of the budget widgets of a run: one
  widget for each category of the form, and the one of the custom category.
\<close>

definition budget_inputs_nonneg :: "budget_inputs \<Rightarrow> session_state \<Rightarrow> bool" where
  "budget_inputs_nonneg inp st \<longleftrightarrow>
     list_all (\<lambda>c. 0 \<le> new_budget inp c) (categories_to_budget st) \<and>
     0 \<le> new_category_budget inp"

subsection \<open>budget_manager.py: the budget analysis\<close>

datatype color = Green | Orange | Red

datatype budget_message = No_message | Over_budget real | Only_left real

record budget_row =
  row_category :: string
  row_budget :: real
  spent :: real
  percentage :: real
  color :: color
  remaining :: real
  message :: budget_message

text \<open>The body of the loop of lines 143 to 166, for a category whose budget is positive.\<close>

fun budget_progress :: "(string \<rightharpoonup> real) \<Rightarrow> string \<times> real \<Rightarrow> budget_row" where
  "budget_progress category_spending (c, budget) =
     (let spent = (case category_spending c of None \<Rightarrow> 0 | Some s \<Rightarrow> s);
          percentage = (if budget > 0 then min 100 ((spent / budget) * 100) else 0);
          color = (if percentage \<ge> 80 then Red
                   else if percentage \<ge> 60 then Orange
                   else Green);
          remaining = budget - spent;
          message = (if remaining < 0 then Over_budget \<bar>remaining\<bar>
                     else if remaining < budget * 0.2 then Only_left remaining
                     else No_message)
      in \<lparr>row_category = c, row_budget = budget, spent = spent, percentage = percentage,
          color = color, remaining = remaining, message = message\<rparr>)"

definition budget_status :: "(string \<times> real) list \<Rightarrow> (string \<rightharpoonup> real) \<Rightarrow> budget_row list" where
  "budget_status budgets_dict category_spending =
     map (budget_progress category_spending)
       (filter (\<lambda>(c, budget). budget > 0) budgets_dict)"

subsection \<open>app.py: the weekly spending planner\<close>

definition days_of_week :: "string list" where
  "days_of_week =
     [''Monday'', ''Tuesday'', ''Wednesday'', ''Thursday'', ''Friday'', ''Saturday'', ''Sunday'']"

text \<open>\<^verbatim>\<open>[1/7] * 7\<close>: seven times the double nearest to one seventh.\<close>

definition default_distribution :: "real list" where
  "default_distribution = replicate 7 (float_div 1 7)"

text \<open>
  The loop of lines 128 to 134 reads one percentage widget for each day (\<open>pct\<close> gives
  the widget's value) and adds the values up from 0, as floats.
\<close>

definition percentages_of :: "(string \<Rightarrow> real) \<Rightarrow> real list" where
  "percentages_of pct = map pct days_of_week"

definition total_percentage_of :: "(string \<Rightarrow> real) \<Rightarrow> real" where
  "total_percentage_of pct = fold (\<lambda>day total. float_add total (pct day)) days_of_week 0"

text \<open>
  Lines 140 to 146: \<^verbatim>\<open>abs(total_percentage - 100.0) > 0.1\<close> subtracts as floats and
  compares with the double \<^verbatim>\<open>0.1\<close>; \<^verbatim>\<open>p/100\<close> is a float division.
\<close>

definition distribution_of :: "bool \<Rightarrow> (string \<Rightarrow> real) \<Rightarrow> real list" where
  "distribution_of custom_dist pct =
     (if custom_dist then
        (if \<bar>float_sub (total_percentage_of pct) 100\<bar> > float_round 0.1
         then default_distribution
         else map (\<lambda>p. float_div p 100) (percentages_of pct))
      else default_distribution)"

text \<open>Line 149: \<^verbatim>\<open>pocket_money * dist\<close> is a float product.\<close>

definition daily_amounts :: "real \<Rightarrow> bool \<Rightarrow> (string \<Rightarrow> real) \<Rightarrow> real list" where
  "daily_amounts pocket_money custom_dist pct =
     map (\<lambda>dist. float_mul pocket_money dist) (distribution_of custom_dist pct)"

section \<open>Properties\<close>

subsection \<open>The projections\<close>

lemma sip_fold_invariant:
  "k \<le> N \<Longrightarrow>
   fold (sip_month c r) [0..<k] (replicate N 0, replicate N 0) = (ti, iv) \<Longrightarrow>
   length ti = N \<and> length iv = N \<and>
   (\<forall>j<k. ti ! j = real (Suc j) * c \<and> iv ! j = sip_value c r j)"
proof (induction k arbitrary: ti iv)
  case 0
  then show ?case by auto
next
  case (Suc k)
  obtain ti0 iv0 where f0: "fold (sip_month c r) [0..<k] (replicate N 0, replicate N 0) = (ti0, iv0)"
    by (cases "fold (sip_month c r) [0..<k] (replicate N 0, replicate N 0)") auto
  from Suc.prems have kN: "k \<le> N" "k < N" by auto
  from Suc.IH[OF kN(1) f0] have ih: "length ti0 = N" "length iv0 = N"
    "\<forall>j<k. ti0 ! j = real (Suc j) * c \<and> iv0 ! j = sip_value c r j" by auto
  from Suc.prems(2) f0 have step: "sip_month c r k (ti0, iv0) = (ti, iv)" by simp
  show ?case
  proof (cases k)
    case 0
    with step ih kN show ?thesis by auto
  next
    case (Suc m)
    with step have ti: "ti = ti0[k := ti0 ! m + c]"
      and iv: "iv = iv0[k := iv0 ! m * (1 + r) + c]" by auto
    from ih(3) Suc have m: "ti0 ! m = real (Suc m) * c" "iv0 ! m = sip_value c r m" by auto
    show ?thesis
      unfolding ti iv using ih kN Suc m
      by (auto simp: nth_list_update less_Suc_eq algebra_simps)
  qed
qed

lemma calculate_sip_returns_columns:
  assumes "0 \<le> time_years"
  shows "\<exists>ti iv. calculate_sip_returns c rate time_years
            = Inr \<lparr>Month = [1..time_years * 12], Total_Investment = ti, Investment_Value = iv\<rparr> \<and>
          length ti = nat (time_years * 12) \<and> length iv = nat (time_years * 12) \<and>
          (\<forall>j < nat (time_years * 12).
              ti ! j = real (Suc j) * c \<and> iv ! j = sip_value c (monthly_rate_of rate) j)"
proof -
  define N where "N = nat (time_years * 12)"
  obtain ti iv where f: "fold (sip_month c (monthly_rate_of rate)) [0..<N] (replicate N 0, replicate N 0) = (ti, iv)"
    by (cases "fold (sip_month c (monthly_rate_of rate)) [0..<N] (replicate N 0, replicate N 0)") auto
  from sip_fold_invariant[OF le_refl f]
  have inv: "length ti = N" "length iv = N"
    "\<forall>j<N. ti ! j = real (Suc j) * c \<and> iv ! j = sip_value c (monthly_rate_of rate) j"
    by auto
  have "calculate_sip_returns c rate time_years
          = Inr \<lparr>Month = [1..time_years * 12], Total_Investment = ti, Investment_Value = iv\<rparr>"
    using assms f by (simp add: calculate_sip_returns_def Let_def N_def)
  with inv show ?thesis unfolding N_def by blast
qed

text \<open>
  C1. For a duration of at least one year (and a rate of at least \<open>-100\<close> percent, where
  the monthly rate is a real number), \<^verbatim>\<open>calculate_sip_returns\<close> returns a frame of
  exactly \<open>time_years * 12\<close> rows, for the months \<open>1\<close> to \<open>time_years * 12\<close>. The
  value of month 1 (index 0) is the contribution; the value of every later month is the
  previous value grown by \<open>1 + r\<close> plus the contribution, with
  \<open>r = (1 + annual_return_rate / 100) powr (1 / 12) - 1\<close>; the cumulative contribution
  of month \<open>n + 1\<close> (index \<open>n\<close>) is \<open>n + 1\<close> times the contribution.
\<close>

theorem sip_projection:
  assumes "1 \<le> time_years" and "- 100 \<le> annual_return_rate"
  shows "\<exists>df. calculate_sip_returns monthly_investment annual_return_rate time_years = Inr df \<and>
           Month df = [1..time_years * 12] \<and>
           length (Month df) = nat (time_years * 12) \<and>
           length (Total_Investment df) = nat (time_years * 12) \<and>
           length (Investment_Value df) = nat (time_years * 12) \<and>
           Investment_Value df ! 0 = monthly_investment \<and>
           (\<forall>n. 1 \<le> n \<and> n < nat (time_years * 12) \<longrightarrow>
              Investment_Value df ! n =
                Investment_Value df ! (n - 1)
                  * (1 + ((1 + annual_return_rate / 100) powr (1 / 12) - 1))
                + monthly_investment) \<and>
           (\<forall>n < nat (time_years * 12).
              Total_Investment df ! n = real (n + 1) * monthly_investment)"
proof -
  from assms(1) have nn: "0 \<le> time_years" by simp
  from calculate_sip_returns_columns[OF nn, of monthly_investment annual_return_rate]
  obtain ti iv where df: "calculate_sip_returns monthly_investment annual_return_rate time_years
            = Inr \<lparr>Month = [1..time_years * 12], Total_Investment = ti, Investment_Value = iv\<rparr>"
    and len: "length ti = nat (time_years * 12)" "length iv = nat (time_years * 12)"
    and vals: "\<forall>j < nat (time_years * 12).
              ti ! j = real (Suc j) * monthly_investment \<and>
              iv ! j = sip_value monthly_investment (monthly_rate_of annual_return_rate) j"
    by blast
  from assms(1) have pos: "0 < nat (time_years * 12)" by simp
  have first: "iv ! 0 = monthly_investment" using vals pos by simp
  have rec: "iv ! n = iv ! (n - 1) * (1 + ((1 + annual_return_rate / 100) powr (1 / 12) - 1))
                + monthly_investment"
    if "1 \<le> n \<and> n < nat (time_years * 12)" for n
  proof -
    from that obtain m where n: "n = Suc m" by (cases n) auto
    with that have "m < nat (time_years * 12)" by simp
    with vals that n show ?thesis by (simp add: monthly_rate_of_def)
  qed
  have cum: "ti ! n = real (n + 1) * monthly_investment" if "n < nat (time_years * 12)" for n
    using vals that by simp
  have months: "length [1..time_years * 12] = nat (time_years * 12)" by simp
  show ?thesis
    using df len first rec cum months by (intro exI[of _ "\<lparr>Month = [1..time_years * 12], Total_Investment = ti, Investment_Value = iv\<rparr>"]) simp
qed

theorem sip_projection_witness:
  "(1::int) \<le> 1 \<and> (- 100::real) \<le> 12 \<and>
   (\<exists>df. calculate_sip_returns 1000 12 1 = Inr df \<and>
      length (Investment_Value df) = 12 \<and>
      Investment_Value df ! 0 = 1000 \<and>
      Total_Investment df ! 11 = 12000)"
proof -
  have h1: "(1::int) \<le> 1" and h2: "(- 100::real) \<le> 12" by simp_all
  from sip_projection[OF h1 h2, of 1000]
  obtain df where "calculate_sip_returns 1000 12 1 = Inr df"
    and "length (Investment_Value df) = nat (1 * 12)"
    and "Investment_Value df ! 0 = 1000"
    and "\<forall>n < nat (1 * 12). Total_Investment df ! n = real (n + 1) * 1000"
    by blast
  then show ?thesis using h1 h2 by auto
qed

lemma lumpsum_fold_gen:
  "length xs = k + length ys \<Longrightarrow>
   fold (lumpsum_year a r) (enumerate k ys) xs
     = take k xs @ map (\<lambda>y. a * (1 + r / 100) ^ nat y) ys"
proof (induction ys arbitrary: k xs)
  case Nil
  then show ?case by simp
next
  case (Cons y ys)
  have len: "length (xs[k := a * (1 + r / 100) ^ nat y]) = Suc k + length ys"
    using Cons.prems by simp
  have k: "k < length xs" using Cons.prems by simp
  have "take (Suc k) (xs[k := a * (1 + r / 100) ^ nat y]) = take k xs @ [a * (1 + r / 100) ^ nat y]"
    using k by (simp add: take_Suc_conv_app_nth)
  with Cons.IH[OF len] show ?case by simp
qed

lemma calculate_lumpsum_returns_map:
  "calculate_lumpsum_returns a r t =
     \<lparr>Year = [0..t], Lumpsum_Investment_Value = map (\<lambda>y. a * (1 + r / 100) ^ nat y) [0..t]\<rparr>"
  unfolding calculate_lumpsum_returns_def Let_def
  using lumpsum_fold_gen[of "replicate (length [0..t]) 0" 0 "[0..t]" a r]
  by simp

text \<open>
  C4. For a duration of at least one year, \<^verbatim>\<open>calculate_lumpsum_returns\<close> returns
  exactly \<open>time_years + 1\<close> rows, for the years \<open>0\<close> to \<open>time_years\<close>; the value of
  year \<open>y\<close> is \<open>investment_amount * (1 + annual_return_rate / 100) ^ y\<close>, and the value
  of year 0 is the investment unchanged. For 100000 at 12 percent over 10 years the
  value of year 10 is \<open>100000 * 1.12 ^ 10\<close>, within 0.01 of 310584.82.
\<close>

theorem lumpsum_projection:
  "(1 \<le> time_years \<longrightarrow>
      Year (calculate_lumpsum_returns investment_amount annual_return_rate time_years) = [0..time_years] \<and>
      length (Year (calculate_lumpsum_returns investment_amount annual_return_rate time_years)) = nat (time_years + 1) \<and>
      length (Lumpsum_Investment_Value (calculate_lumpsum_returns investment_amount annual_return_rate time_years))
        = nat (time_years + 1) \<and>
      (\<forall>y. 0 \<le> y \<and> y \<le> time_years \<longrightarrow>
         Year (calculate_lumpsum_returns investment_amount annual_return_rate time_years) ! nat y = y \<and>
         Lumpsum_Investment_Value (calculate_lumpsum_returns investment_amount annual_return_rate time_years) ! nat y
           = investment_amount * (1 + annual_return_rate / 100) ^ nat y) \<and>
      Lumpsum_Investment_Value (calculate_lumpsum_returns investment_amount annual_return_rate time_years) ! 0
        = investment_amount) \<and>
   Lumpsum_Investment_Value (calculate_lumpsum_returns 100000 12 10) ! 10 = 100000 * (112 / 100) ^ 10 \<and>
   \<bar>Lumpsum_Investment_Value (calculate_lumpsum_returns 100000 12 10) ! 10 - 310584.82\<bar> \<le> 0.01"
proof -
  have nth: "\<And>a r t y. 0 \<le> y \<Longrightarrow> y \<le> t \<Longrightarrow>
      map (\<lambda>y. a * (1 + r / 100) ^ nat y) [0..t] ! nat y = a * (1 + r / 100) ^ nat y"
    by (simp add: nth_map)
  have ten: "Lumpsum_Investment_Value (calculate_lumpsum_returns 100000 12 10) ! 10
               = 100000 * (112 / 100) ^ 10"
    using nth[of 10 10 100000 12] by (simp add: calculate_lumpsum_returns_map)
  have general: "1 \<le> time_years \<longrightarrow>
      Year (calculate_lumpsum_returns investment_amount annual_return_rate time_years) = [0..time_years] \<and>
      length (Year (calculate_lumpsum_returns investment_amount annual_return_rate time_years)) = nat (time_years + 1) \<and>
      length (Lumpsum_Investment_Value (calculate_lumpsum_returns investment_amount annual_return_rate time_years))
        = nat (time_years + 1) \<and>
      (\<forall>y. 0 \<le> y \<and> y \<le> time_years \<longrightarrow>
         Year (calculate_lumpsum_returns investment_amount annual_return_rate time_years) ! nat y = y \<and>
         Lumpsum_Investment_Value (calculate_lumpsum_returns investment_amount annual_return_rate time_years) ! nat y
           = investment_amount * (1 + annual_return_rate / 100) ^ nat y) \<and>
      Lumpsum_Investment_Value (calculate_lumpsum_returns investment_amount annual_return_rate time_years) ! 0
        = investment_amount"
    using nth[of 0 time_years investment_amount annual_return_rate]
    by (auto simp: calculate_lumpsum_returns_map nth_map)
  have bound: "\<bar>(100000::real) * (112 / 100) ^ 10 - 310584.82\<bar> \<le> 0.01"
    by (simp add: power_divide)
  show ?thesis
  proof (intro conjI)
    show "\<bar>Lumpsum_Investment_Value (calculate_lumpsum_returns 100000 12 10) ! 10 - 310584.82\<bar> \<le> 0.01"
      unfolding ten by (rule bound)
  qed (rule general, rule ten)
qed

theorem lumpsum_projection_witness:
  "(1::int) \<le> 2 \<and>
   length (Lumpsum_Investment_Value (calculate_lumpsum_returns 500 10 2)) = 3 \<and>
   Lumpsum_Investment_Value (calculate_lumpsum_returns 500 10 2) ! 2 = 605"
proof -
  have h: "(1::int) \<le> 2" by simp
  note body = lumpsum_projection[of 2 500 10, THEN conjunct1, THEN mp, OF h]
  note len = body[THEN conjunct2, THEN conjunct2, THEN conjunct1]
  note all = body[THEN conjunct2, THEN conjunct2, THEN conjunct2, THEN conjunct1]
  have "(0::int) \<le> 2 \<and> (2::int) \<le> 2" by simp
  with all have "Lumpsum_Investment_Value (calculate_lumpsum_returns 500 10 2) ! nat 2
          = 500 * (1 + 10 / 100) ^ nat 2"
    by blast
  then have "Lumpsum_Investment_Value (calculate_lumpsum_returns 500 10 2) ! 2 = 605"
    by (simp add: power2_eq_square)
  with len h show ?thesis by simp
qed

text \<open>
  C3. The inflation-adjusted final value is not guarded: with an expected return of 6
  percent and an inflation of 6 percent (both within the sliders' ranges) the real
  return rate is 0, and the division by it raises ZeroDivisionError instead of giving
  \<open>1000 * 120\<close>.
\<close>

theorem sip_inflation_adj_final_equal_rates:
  "sip_inflation_adj_final 1000 6 6 10 = Inl ZeroDivisionError"
  by (simp add: sip_inflation_adj_final_def py_div_def py_pow_int_def)

subsection \<open>The budget analysis\<close>

text \<open>
  C2. The budget analysis has one row for each entry of the budget dict whose budget is
  positive, in the dict's order, and for no other. In each row the percentage used is
  \<open>min 100 (spent / budget * 100)\<close>, where \<open>spent\<close> is the category's spending (0 when
  it has none); the colour is green (ok) below 60, orange (warning) from 60 to below
  80, and red (critical) from 80; and a negative remaining amount is reported as over
  budget by its absolute value. Spending 80 of a budget of 100 is red, at 80 percent;
  spending 59.99 of 100 is green.
\<close>

theorem budget_status_report:
  "map row_category (budget_status budgets_dict category_spending)
     = map fst (filter (\<lambda>(c, budget). budget > 0) budgets_dict) \<and>
   (\<forall>row \<in> set (budget_status budgets_dict category_spending).
      (row_category row, row_budget row) \<in> set budgets_dict \<and>
      0 < row_budget row \<and>
      spent row = (case category_spending (row_category row) of None \<Rightarrow> 0 | Some s \<Rightarrow> s) \<and>
      percentage row = min 100 (spent row / row_budget row * 100) \<and>
      (percentage row < 60 \<longrightarrow> color row = Green) \<and>
      (60 \<le> percentage row \<and> percentage row < 80 \<longrightarrow> color row = Orange) \<and>
      (80 \<le> percentage row \<longrightarrow> color row = Red) \<and>
      remaining row = row_budget row - spent row \<and>
      (remaining row < 0 \<longrightarrow> message row = Over_budget \<bar>remaining row\<bar>)) \<and>
   map percentage (budget_status [(c, 100)] [c \<mapsto> 80]) = [80] \<and>
   map color (budget_status [(c, 100)] [c \<mapsto> 80]) = [Red] \<and>
   map color (budget_status [(c, 100)] [c \<mapsto> 59.99]) = [Green]"
proof (intro conjI ballI)
  show "map row_category (budget_status budgets_dict category_spending)
     = map fst (filter (\<lambda>(c, budget). budget > 0) budgets_dict)"
    by (induction budgets_dict) (auto simp: budget_status_def Let_def)
next
  fix row assume "row \<in> set (budget_status budgets_dict category_spending)"
  then obtain c budget where cb: "(c, budget) \<in> set budgets_dict" "budget > 0"
    and row: "row = budget_progress category_spending (c, budget)"
    by (auto simp: budget_status_def)
  show "(row_category row, row_budget row) \<in> set budgets_dict"
    using cb row by (simp add: Let_def)
  show "0 < row_budget row" using cb row by (simp add: Let_def)
  show "spent row = (case category_spending (row_category row) of None \<Rightarrow> 0 | Some s \<Rightarrow> s)"
    using row by (simp add: Let_def)
  show "percentage row = min 100 (spent row / row_budget row * 100)"
    using cb row by (simp add: Let_def)
  show "percentage row < 60 \<longrightarrow> color row = Green"
    using row by (simp add: Let_def)
  show "60 \<le> percentage row \<and> percentage row < 80 \<longrightarrow> color row = Orange"
    using row by (simp add: Let_def)
  show "80 \<le> percentage row \<longrightarrow> color row = Red"
    using row by (simp add: Let_def)
  show "remaining row = row_budget row - spent row"
    using row by (simp add: Let_def)
  show "remaining row < 0 \<longrightarrow> message row = Over_budget \<bar>remaining row\<bar>"
    using row by (simp add: Let_def)
next
  show "map percentage (budget_status [(c, 100)] [c \<mapsto> 80]) = [80]"
    by (simp add: budget_status_def Let_def)
  show "map color (budget_status [(c, 100)] [c \<mapsto> 80]) = [Red]"
    by (simp add: budget_status_def Let_def)
  show "map color (budget_status [(c, 100)] [c \<mapsto> 59.99]) = [Green]"
    by (simp add: budget_status_def Let_def)
qed

theorem budget_status_report_witness:
  "budget_progress [''Food'' \<mapsto> 70] (''Food'', 100)
     \<in> set (budget_status [(''Food'', 100), (''Rent'', 0)] [''Food'' \<mapsto> 70]) \<and>
   60 \<le> percentage (budget_progress [''Food'' \<mapsto> 70] (''Food'', 100)) \<and>
   percentage (budget_progress [''Food'' \<mapsto> 70] (''Food'', 100)) < 80 \<and>
   color (budget_progress [''Food'' \<mapsto> 70] (''Food'', 100)) = Orange \<and>
   budget_progress [''Food'' \<mapsto> 120] (''Food'', 100)
     \<in> set (budget_status [(''Food'', 100)] [''Food'' \<mapsto> 120]) \<and>
   remaining (budget_progress [''Food'' \<mapsto> 120] (''Food'', 100)) < 0 \<and>
   message (budget_progress [''Food'' \<mapsto> 120] (''Food'', 100)) = Over_budget 20"
proof -
  let ?row = "budget_progress [''Food'' \<mapsto> 70] (''Food'', 100)"
  let ?over = "budget_progress [''Food'' \<mapsto> 120] (''Food'', 100)"
  have mem: "?row \<in> set (budget_status [(''Food'', 100), (''Rent'', 0)] [''Food'' \<mapsto> 70])"
    by (simp add: budget_status_def)
  have pct: "60 \<le> percentage ?row \<and> percentage ?row < 80"
    by (simp add: Let_def)
  note rows = budget_status_report[of "[(''Food'', 100), (''Rent'', 0)]" "[''Food'' \<mapsto> 70]",
      THEN conjunct2, THEN conjunct1, rule_format, OF mem]
  from rows pct have orange: "color ?row = Orange" by blast
  have mem': "?over \<in> set (budget_status [(''Food'', 100)] [''Food'' \<mapsto> 120])"
    by (simp add: budget_status_def)
  have neg: "remaining ?over < 0" by (simp add: Let_def)
  have abs: "\<bar>remaining ?over\<bar> = 20" by (simp add: Let_def)
  note rows' = budget_status_report[of "[(''Food'', 100)]" "[''Food'' \<mapsto> 120]",
      THEN conjunct2, THEN conjunct1, rule_format, OF mem']
  from rows' neg have "message ?over = Over_budget \<bar>remaining ?over\<bar>" by blast
  with abs have over: "message ?over = Over_budget 20" by simp
  from mem pct orange mem' neg over show ?thesis by blast
qed

subsection \<open>The expense history filter\<close>

text \<open>
  C5, as the claim states it, fails: with the category selection left empty, a ledger
  of one expense is not filtered to nothing; the expense is still listed.
\<close>

theorem empty_selection_counterexample:
  "filtered_expenses \<lparr>date_year = 2023, date_month = 5, toordinal = 738640\<rparr> All_time []
     (add_expense \<lparr>date_year = 2023, date_month = 5, toordinal = 738640\<rparr> 50 ''Other'' [] init_session)
   = [\<lparr>date = \<lparr>date_year = 2023, date_month = 5, toordinal = 738640\<rparr>, amount = 50,
        category = ''Other'', description = []\<rparr>]"
  by (simp add: filtered_expenses_def apply_category_filter_def apply_date_filter_def
      add_expense_def init_session_def)

text \<open>
  C5, amended. An empty selected-category list applies no category filter: the result is
  every record that passes the date filter, and the whole ledger under \<^verbatim>\<open>All time\<close>.
\<close>

theorem empty_selection_no_category_filter:
  "filtered_expenses today date_filter [] st = apply_date_filter today date_filter (expenses st) \<and>
   filtered_expenses today All_time [] st = expenses st"
  by (simp add: filtered_expenses_def apply_category_filter_def apply_date_filter_def)

lemma set_unique: "set (unique xs) = set xs"
  by (simp add: unique_def)

text \<open>
  C7. With a full date range (\<^verbatim>\<open>All time\<close>, or a custom range that holds every date of
  the ledger) and every category of the ledger selected, the filter returns the ledger
  itself, the records in their order, and so the total of the filtered records is the
  total of the ledger. The filter returns a new table and no session state: the ledger
  is not written.
\<close>

theorem unconstrained_filter_keeps_ledger:
  assumes "date_filter = All_time \<or>
           (\<exists>start_date end_date. date_filter = Custom start_date end_date \<and>
              (\<forall>e \<in> set (expenses st).
                 toordinal start_date \<le> toordinal (date e) \<and>
                 toordinal (date e) \<le> toordinal end_date))"
    and "set (all_categories st) \<subseteq> set selected_categories"
  shows "filtered_expenses today date_filter selected_categories st = expenses st \<and>
         total_filtered (filtered_expenses today date_filter selected_categories st)
           = total_filtered (expenses st)"
proof -
  have dates: "apply_date_filter today date_filter (expenses st) = expenses st"
    using assms(1) by (auto simp: apply_date_filter_def)
  have "category e \<in> set selected_categories" if "e \<in> set (expenses st)" for e
    using that assms(2) by (auto simp: all_categories_def set_unique)
  then have "apply_category_filter selected_categories (expenses st) = expenses st"
    by (simp add: apply_category_filter_def)
  with dates show ?thesis by (simp add: filtered_expenses_def)
qed

theorem unconstrained_filter_keeps_ledger_witness:
  "set (all_categories
          (add_expense \<lparr>date_year = 2023, date_month = 5, toordinal = 738641\<rparr> 10 ''Groceries'' []
            (add_expense \<lparr>date_year = 2023, date_month = 5, toordinal = 738640\<rparr> 50 ''Other'' []
               init_session)))
     \<subseteq> set [''Other'', ''Groceries''] \<and>
   filtered_expenses \<lparr>date_year = 2023, date_month = 6, toordinal = 738680\<rparr> All_time
       [''Other'', ''Groceries'']
       (add_expense \<lparr>date_year = 2023, date_month = 5, toordinal = 738641\<rparr> 10 ''Groceries'' []
         (add_expense \<lparr>date_year = 2023, date_month = 5, toordinal = 738640\<rparr> 50 ''Other'' []
            init_session))
     = [\<lparr>date = \<lparr>date_year = 2023, date_month = 5, toordinal = 738640\<rparr>, amount = 50,
          category = ''Other'', description = []\<rparr>,
        \<lparr>date = \<lparr>date_year = 2023, date_month = 5, toordinal = 738641\<rparr>, amount = 10,
          category = ''Groceries'', description = []\<rparr>]"
proof -
  let ?st = "add_expense \<lparr>date_year = 2023, date_month = 5, toordinal = 738641\<rparr> 10 ''Groceries'' []
            (add_expense \<lparr>date_year = 2023, date_month = 5, toordinal = 738640\<rparr> 50 ''Other'' []
               init_session)"
  have h1: "All_time = All_time \<or>
           (\<exists>start_date end_date. All_time = Custom start_date end_date \<and>
              (\<forall>e \<in> set (expenses ?st).
                 toordinal start_date \<le> toordinal (date e) \<and>
                 toordinal (date e) \<le> toordinal end_date))"
    by simp
  have h2: "set (all_categories ?st) \<subseteq> set [''Other'', ''Groceries'']"
    by (simp add: all_categories_def unique_def add_expense_def init_session_def)
  have ledger: "expenses ?st
     = [\<lparr>date = \<lparr>date_year = 2023, date_month = 5, toordinal = 738640\<rparr>, amount = 50,
          category = ''Other'', description = []\<rparr>,
        \<lparr>date = \<lparr>date_year = 2023, date_month = 5, toordinal = 738641\<rparr>, amount = 10,
          category = ''Groceries'', description = []\<rparr>]"
    by (simp add: add_expense_def init_session_def)
  from unconstrained_filter_keeps_ledger[OF h1 h2,
      of "\<lparr>date_year = 2023, date_month = 6, toordinal = 738680\<rparr>"]
  have "filtered_expenses \<lparr>date_year = 2023, date_month = 6, toordinal = 738680\<rparr> All_time
       [''Other'', ''Groceries''] ?st = expenses ?st"
    by (rule conjunct1)
  with h2 ledger show ?thesis by simp
qed

subsection \<open>The session state: registered categories\<close>

lemma keys_dict_set: "fst ` set (dict_set k v d) = insert k (fst ` set d)"
  by (induction d) force+

lemma list_all_dict_set: "P (k, v) \<Longrightarrow> list_all P d \<Longrightarrow> list_all P (dict_set k v d)"
  by (induction d) auto

lemma registry_ok_step:
  assumes "registry_ok st" and "writes_registered [m] st"
  shows "registry_ok (apply_mutation m st)"
proof (cases m)
  case Init_categories
  with assms show ?thesis by (simp add: registry_ok_def registry_def)
next
  case (Set_budget c v)
  with assms have "c \<in> set (registry st)" "fst ` set (budgets st) \<subseteq> set (registry st)"
    by (simp_all add: registry_ok_def)
  moreover have "registry (apply_mutation m st) = registry st"
    using Set_budget by (simp add: registry_def)
  ultimately show ?thesis
    using Set_budget by (simp add: registry_ok_def keys_dict_set)
next
  case (Append_category c)
  with assms have "fst ` set (budgets st) \<subseteq> set (registry st)"
    by (simp add: registry_ok_def)
  moreover have "registry (apply_mutation m st) = registry st @ [c]"
    using Append_category by (simp add: registry_def)
  ultimately show ?thesis
    using Append_category by (auto simp: registry_ok_def)
qed

lemma registry_ok_fold:
  "registry_ok st \<Longrightarrow> writes_registered ms st \<Longrightarrow> registry_ok (fold apply_mutation ms st)"
proof (induction ms arbitrary: st)
  case Nil
  then show ?case by simp
next
  case (Cons m ms)
  from Cons.prems have "writes_registered [m] st" "writes_registered ms (apply_mutation m st)"
    by (cases m; simp)+
  with Cons show ?case using registry_ok_step by simp
qed

lemma writes_registered_take:
  "writes_registered ms st \<Longrightarrow> writes_registered (take n ms) st"
proof (induction ms arbitrary: st n)
  case Nil
  then show ?case by simp
next
  case (Cons m ms)
  then show ?case by (cases n; cases m) auto
qed

lemma registry_fold_form:
  "registry (fold apply_mutation (map (\<lambda>c. Set_budget c (f c)) cs) st) = registry st"
  by (induction cs arbitrary: st) (auto simp: registry_def)

lemma writes_registered_form:
  "set cs \<subseteq> set (registry st) \<Longrightarrow>
   writes_registered (map (\<lambda>c. Set_budget c (f c)) cs @ rest) st
     = writes_registered rest (fold apply_mutation (map (\<lambda>c. Set_budget c (f c)) cs) st)"
proof (induction cs arbitrary: st)
  case Nil
  then show ?case by simp
next
  case (Cons c cs)
  have "registry (apply_mutation (Set_budget c (f c)) st) = registry st"
    by (simp add: registry_def)
  with Cons show ?case by simp
qed

lemma writes_registered_custom:
  "writes_registered [Append_category c, Set_budget c v] st"
  by (simp add: registry_def)

lemma writes_registered_budget_manager:
  "writes_registered (budget_manager_mutations inp st) st"
proof (cases "budget_categories st")
  case None
  let ?st = "apply_mutation Init_categories st"
  have reg: "set default_categories \<subseteq> set (registry ?st)" by (simp add: registry_def)
  show ?thesis
    using None writes_registered_form[OF reg] writes_registered_custom
    by (simp add: budget_manager_mutations_def categories_to_budget_def Let_def)
next
  case (Some cs)
  have reg: "set cs \<subseteq> set (registry st)" using Some by (simp add: registry_def)
  show ?thesis
    using Some writes_registered_form[OF reg] writes_registered_custom
    by (simp add: budget_manager_mutations_def categories_to_budget_def Let_def)
qed

lemma reachable_registry_ok: "reachable st \<Longrightarrow> registry_ok st"
proof (induction rule: reachable.induct)
  case reachable_init
  then show ?case by (simp add: registry_ok_def init_session_def)
next
  case (reachable_expense st d a c descr)
  then show ?case by (simp add: registry_ok_def add_expense_def registry_def)
next
  case (reachable_budget st n inp)
  then show ?case
    unfolding run_mutations_def
    by (intro registry_ok_fold writes_registered_take writes_registered_budget_manager)
qed

lemma map_of_dict_set: "map_of (dict_set k v d) = (map_of d)(k \<mapsto> v)"
  by (induction d) (auto simp: fun_eq_iff)

text \<open>
  C8. In every reachable state, the states between the writes of a run of the budget
  manager included, every key of the budget dict is a registered category. When the
  form is submitted with a custom category that is not yet registered, the writes of
  the run end with the append to the category list followed by the write of the
  category's budget: no earlier write of the run stores a budget under that category,
  and in the state between the two the category is registered, has no budget entry
  yet, and the invariant holds. After the run the category has the budget given.
\<close>

theorem registry_membership_invariant:
  "(reachable st \<longrightarrow> registry_ok st) \<and>
   (reachable st \<and> submit_button inp \<and> new_category inp \<noteq> [] \<and>
    new_category inp \<notin> set (categories_to_budget st) \<longrightarrow>
    (\<exists>pre.
       budget_manager_mutations inp st
         = pre @ [Append_category (new_category inp),
                  Set_budget (new_category inp) (new_category_budget inp)] \<and>
       (\<forall>v. Set_budget (new_category inp) v \<notin> set pre) \<and>
       new_category inp \<notin> fst ` set (budgets (run_mutations pre st)) \<and>
       new_category inp
         \<in> set (registry (run_mutations (pre @ [Append_category (new_category inp)]) st)) \<and>
       new_category inp
         \<notin> fst ` set (budgets (run_mutations (pre @ [Append_category (new_category inp)]) st)) \<and>
       registry_ok (run_mutations (pre @ [Append_category (new_category inp)]) st) \<and>
       map_of (budgets (show_budget_manager inp st)) (new_category inp)
         = Some (new_category_budget inp)))"
proof (intro conjI impI)
  assume "reachable st"
  then show "registry_ok st" by (rule reachable_registry_ok)
next
  assume prems: "reachable st \<and> submit_button inp \<and> new_category inp \<noteq> [] \<and>
    new_category inp \<notin> set (categories_to_budget st)"
  define nc where "nc = new_category inp"
  define cats where "cats = categories_to_budget st"
  define init where "init = (if budget_categories st = None then [Init_categories] else [])"
  define form where "form = map (\<lambda>c. Set_budget c (new_budget inp c)) cats"
  define pre where "pre = init @ form"
  from prems have reach: "reachable st" and notin: "nc \<notin> set cats"
    by (simp_all add: nc_def cats_def)
  have ms: "budget_manager_mutations inp st
              = pre @ [Append_category nc, Set_budget nc (new_category_budget inp)]"
    using prems
    by (simp add: budget_manager_mutations_def Let_def pre_def init_def form_def cats_def nc_def)
  have no_write: "Set_budget nc v \<notin> set pre" for v
    using notin by (auto simp: pre_def init_def form_def)
  have reg_init: "registry (fold apply_mutation init st) = cats"
    by (cases "budget_categories st")
      (simp_all add: init_def cats_def categories_to_budget_def registry_def)
  have reg_pre: "registry (run_mutations pre st) = cats"
    by (simp add: run_mutations_def pre_def form_def registry_fold_form reg_init)
  have "take (length pre) (budget_manager_mutations inp st) = pre"
    using ms by simp
  with reachable_budget[OF reach, of "length pre" inp]
  have "reachable (run_mutations pre st)" by simp
  then have "registry_ok (run_mutations pre st)" by (rule reachable_registry_ok)
  with reg_pre notin have no_key: "nc \<notin> fst ` set (budgets (run_mutations pre st))"
    by (auto simp: registry_ok_def)
  let ?mid = "run_mutations (pre @ [Append_category nc]) st"
  have mid: "?mid = apply_mutation (Append_category nc) (run_mutations pre st)"
    by (simp add: run_mutations_def)
  have reg_mid: "registry ?mid = cats @ [nc]"
    unfolding mid using reg_pre by (simp add: registry_def)
  have bud_mid: "budgets ?mid = budgets (run_mutations pre st)"
    unfolding mid by simp
  have "take (Suc (length pre)) (budget_manager_mutations inp st) = pre @ [Append_category nc]"
    using ms by simp
  with reachable_budget[OF reach, of "Suc (length pre)" inp]
  have "reachable ?mid" by simp
  then have ok_mid: "registry_ok ?mid" by (rule reachable_registry_ok)
  have "show_budget_manager inp st
          = apply_mutation (Set_budget nc (new_category_budget inp)) ?mid"
    by (simp add: show_budget_manager_def ms run_mutations_def)
  then have final: "map_of (budgets (show_budget_manager inp st)) nc = Some (new_category_budget inp)"
    by (simp add: map_of_dict_set)
  show "\<exists>pre.
       budget_manager_mutations inp st
         = pre @ [Append_category (new_category inp),
                  Set_budget (new_category inp) (new_category_budget inp)] \<and>
       (\<forall>v. Set_budget (new_category inp) v \<notin> set pre) \<and>
       new_category inp \<notin> fst ` set (budgets (run_mutations pre st)) \<and>
       new_category inp
         \<in> set (registry (run_mutations (pre @ [Append_category (new_category inp)]) st)) \<and>
       new_category inp
         \<notin> fst ` set (budgets (run_mutations (pre @ [Append_category (new_category inp)]) st)) \<and>
       registry_ok (run_mutations (pre @ [Append_category (new_category inp)]) st) \<and>
       map_of (budgets (show_budget_manager inp st)) (new_category inp)
         = Some (new_category_budget inp)"
    using ms no_write no_key reg_mid bud_mid ok_mid final
    unfolding nc_def[symmetric]
    by (intro exI[of _ pre]) simp
qed

theorem registry_membership_invariant_witness:
  "reachable init_session \<and>
   ''Travel'' \<notin> set default_categories \<and>
   registry_ok init_session \<and>
   map_of (budgets (show_budget_manager
       \<lparr>new_budget = (\<lambda>c. 0), new_category = ''Travel'', new_category_budget = 500,
        submit_button = True\<rparr> init_session)) ''Travel'' = Some 500"
proof -
  let ?inp = "\<lparr>new_budget = (\<lambda>c. 0), new_category = ''Travel'', new_category_budget = 500,
        submit_button = True\<rparr>"
  have r: "reachable init_session" by (rule reachable_init)
  have fresh: "''Travel'' \<notin> set default_categories" by (simp add: default_categories_def)
  have h: "reachable init_session \<and> submit_button ?inp \<and> new_category ?inp \<noteq> [] \<and>
    new_category ?inp \<notin> set (categories_to_budget init_session)"
    using r fresh by (simp add: categories_to_budget_def init_session_def)
  note inv = registry_membership_invariant[of init_session ?inp]
  from inv r have ok: "registry_ok init_session" by blast
  from inv h have "map_of (budgets (show_budget_manager ?inp init_session)) (new_category ?inp)
         = Some (new_category_budget ?inp)"
    by blast
  then have "map_of (budgets (show_budget_manager ?inp init_session)) ''Travel'' = Some 500"
    by simp
  with r fresh ok show ?thesis by blast
qed

subsection \<open>The session state: amounts that are not negative\<close>

lemma amounts_nonneg_fold:
  "amounts_nonneg st \<Longrightarrow> (\<forall>c v. Set_budget c v \<in> set ms \<longrightarrow> 0 \<le> v) \<Longrightarrow>
   amounts_nonneg (fold apply_mutation ms st)"
proof (induction ms arbitrary: st)
  case Nil
  then show ?case by simp
next
  case (Cons m ms)
  have "amounts_nonneg (apply_mutation m st)"
  proof (cases m)
    case (Set_budget c v)
    with Cons.prems have "0 \<le> v" by auto
    with Cons.prems(1) Set_budget show ?thesis
      by (simp add: amounts_nonneg_def list_all_dict_set)
  qed (use Cons.prems(1) in \<open>simp_all add: amounts_nonneg_def\<close>)
  with Cons show ?case by simp
qed

lemma budget_manager_writes_nonneg:
  "budget_inputs_nonneg inp st \<Longrightarrow> Set_budget c v \<in> set (budget_manager_mutations inp st) \<Longrightarrow>
   0 \<le> v"
  by (auto simp: budget_manager_mutations_def budget_inputs_nonneg_def Let_def list_all_iff
      split: if_splits)

text \<open>
  C9, as the claim states it, fails: the submit handler of the expense form checks
  nothing and does not fail, so that a negative amount, were one to reach it, is
  appended to the ledger.
\<close>

theorem negative_amount_counterexample:
  "expenses (add_expense \<lparr>date_year = 2023, date_month = 5, toordinal = 738640\<rparr> (- 5) ''Other'' []
      init_session)
   = [\<lparr>date = \<lparr>date_year = 2023, date_month = 5, toordinal = 738640\<rparr>, amount = - 5,
        category = ''Other'', description = []\<rparr>]"
  by (simp add: add_expense_def init_session_def)

text \<open>
  C9, amended. Negative amounts are kept out by the widgets, which are declared with
  \<^verbatim>\<open>min_value=0.0\<close>, and not by a check at the mutation: the handlers raise no error.
  No amount is negative in the initial state; adding an expense whose amount is not
  negative, and every write of a run of the budget manager whose widget values are not
  negative, keep every amount of the ledger and every budget at 0 or above.
\<close>

theorem nonneg_amounts_preserved:
  "amounts_nonneg init_session \<and>
   (0 \<le> a \<and> amounts_nonneg st \<longrightarrow> amounts_nonneg (add_expense d a c descr st)) \<and>
   (budget_inputs_nonneg inp st \<and> amounts_nonneg st \<longrightarrow>
      (\<forall>n. amounts_nonneg (run_mutations (take n (budget_manager_mutations inp st)) st)) \<and>
      amounts_nonneg (show_budget_manager inp st))"
proof (intro conjI impI allI)
  show "amounts_nonneg init_session" by (simp add: amounts_nonneg_def init_session_def)
next
  assume "0 \<le> a \<and> amounts_nonneg st"
  then show "amounts_nonneg (add_expense d a c descr st)"
    by (simp add: amounts_nonneg_def add_expense_def)
next
  assume h: "budget_inputs_nonneg inp st \<and> amounts_nonneg st"
  have pre: "amounts_nonneg (run_mutations (take n (budget_manager_mutations inp st)) st)" for n
    unfolding run_mutations_def
  proof (rule amounts_nonneg_fold)
    show "amounts_nonneg st" using h by simp
    show "\<forall>c v. Set_budget c v \<in> set (take n (budget_manager_mutations inp st)) \<longrightarrow> 0 \<le> v"
      using h budget_manager_writes_nonneg by (blast dest: in_set_takeD)
  qed
  show "amounts_nonneg (run_mutations (take n (budget_manager_mutations inp st)) st)" for n
    by (rule pre)
  from pre[of "length (budget_manager_mutations inp st)"]
  show "amounts_nonneg (show_budget_manager inp st)"
    by (simp add: show_budget_manager_def)
qed

theorem nonneg_amounts_preserved_witness:
  "(0::real) \<le> 50 \<and> amounts_nonneg init_session \<and>
   amounts_nonneg (add_expense \<lparr>date_year = 2023, date_month = 5, toordinal = 738640\<rparr> 50
      ''Other'' [] init_session) \<and>
   budget_inputs_nonneg \<lparr>new_budget = (\<lambda>c. 100), new_category = ''Travel'',
      new_category_budget = 500, submit_button = True\<rparr> init_session \<and>
   amounts_nonneg (show_budget_manager \<lparr>new_budget = (\<lambda>c. 100), new_category = ''Travel'',
      new_category_budget = 500, submit_button = True\<rparr> init_session)"
proof -
  let ?inp = "\<lparr>new_budget = (\<lambda>c. 100), new_category = ''Travel'',
      new_category_budget = 500, submit_button = True\<rparr>"
  let ?d = "\<lparr>date_year = 2023, date_month = 5, toordinal = 738640\<rparr>"
  note p = nonneg_amounts_preserved[of 50 init_session ?d "''Other''" "[]" ?inp]
  have a: "(0::real) \<le> 50" by simp
  have i: "budget_inputs_nonneg ?inp init_session"
    by (simp add: budget_inputs_nonneg_def list_all_iff)
  from p have n0: "amounts_nonneg init_session" by blast
  from p a n0 have n1: "amounts_nonneg (add_expense ?d 50 ''Other'' [] init_session)" by blast
  from p i n0 have n2: "amounts_nonneg (show_budget_manager ?inp init_session)" by blast
  from a n0 n1 i n2 show ?thesis by blast
qed

subsection \<open>The rounding of floats\<close>

text \<open>
  \<open>float_round\<close> gives a nearest double: its result is an integer of 53 bits (or
  \<open>2 ^ 53\<close>, the first of the next binade) times a power of two, and it is no further
  from \<open>x\<close> than half a unit of the last of those bits.
\<close>

lemma round_half_even_error: "\<bar>of_int (round_half_even y) - y\<bar> \<le> 1 / 2"
  unfolding round_half_even_def Let_def by (auto split: if_splits)

lemma scale2_inverse: "scale2 (scale2 x (- e)) e = x"
  by (simp add: scale2_def)

lemma floor_log2_bounds:
  assumes "0 < x"
  shows "scale2 1 (floor_log2 x) \<le> x \<and> x < scale2 1 (floor_log2 x + 1)"
proof (cases "1 \<le> x")
  case True
  define n where "n = \<lfloor>x\<rfloor>"
  from True have n: "0 < n" by (simp add: n_def)
  from bitlen_bounds[OF n] have lo: "2 ^ nat (bitlen n - 1) \<le> n" and hi: "n < 2 ^ nat (bitlen n)"
    by auto
  from n have b: "1 \<le> bitlen n" by (simp add: bitlen_alt_def)
  have "real_of_int (2 ^ nat (bitlen n - 1)) \<le> real_of_int n" using lo by linarith
  also have "\<dots> \<le> x" by (simp add: n_def)
  finally have 1: "2 ^ nat (bitlen n - 1) \<le> x" by simp
  from hi have "n + 1 \<le> 2 ^ nat (bitlen n)" by simp
  then have "real_of_int (n + 1) \<le> real_of_int (2 ^ nat (bitlen n))" by linarith
  moreover have "x < real_of_int (n + 1)" by (simp add: n_def)
  ultimately have 2: "x < 2 ^ nat (bitlen n)" by simp
  show ?thesis using True b 1 2 by (simp add: floor_log2_def scale2_def n_def)
next
  case False
  define c where "c = \<lceil>1 / x\<rceil>"
  define m where "m = c - 1"
  from False assms have y: "1 < 1 / x" by simp
  then have "1 < c" by (simp add: c_def less_ceiling_iff)
  then have m: "0 < m" by (simp add: m_def)
  from bitlen_bounds[OF m] have lo: "2 ^ nat (bitlen m - 1) \<le> m" and hi: "m < 2 ^ nat (bitlen m)"
    by auto
  from m have b: "1 \<le> bitlen m" by (simp add: bitlen_alt_def)
  from hi have "c \<le> 2 ^ nat (bitlen m)" by (simp add: m_def)
  then have "real_of_int c \<le> real_of_int (2 ^ nat (bitlen m))" by (rule of_int_le_iff[THEN iffD2])
  then have cb: "real_of_int c \<le> 2 ^ nat (bitlen m)" by simp
  have "1 / x \<le> real_of_int c" by (simp add: c_def)
  with cb have "1 / x \<le> 2 ^ nat (bitlen m)" by linarith
  with assms have 1: "1 / 2 ^ nat (bitlen m) \<le> x"
    by (simp add: field_simps)
  have mx: "real_of_int m < 1 / x" unfolding m_def c_def by linarith
  have "real_of_int (2 ^ nat (bitlen m - 1)) \<le> real_of_int m"
    using lo by (rule of_int_le_iff[THEN iffD2])
  then have "2 ^ nat (bitlen m - 1) \<le> real_of_int m" by simp
  with mx have "2 ^ nat (bitlen m - 1) < 1 / x" by linarith
  with assms have 2: "x < 1 / 2 ^ nat (bitlen m - 1)"
    by (simp add: field_simps)
  show ?thesis
  proof (cases "bitlen m = 1")
    case True
    with 1 2 False show ?thesis by (simp add: floor_log2_def scale2_def c_def m_def)
  next
    case neq: False
    with b have "1 < bitlen m" by simp
    with 1 2 False show ?thesis by (simp add: floor_log2_def scale2_def c_def m_def)
  qed
qed


lemma round_half_even_between: "\<lfloor>y\<rfloor> \<le> round_half_even y \<and> round_half_even y \<le> \<lceil>y\<rceil>"
proof (cases "y = of_int \<lfloor>y\<rfloor>")
  case True
  then have "y - of_int \<lfloor>y\<rfloor> = 0" by simp
  then have "round_half_even y = \<lfloor>y\<rfloor>"
    unfolding round_half_even_def Let_def by (simp only:) simp
  then show ?thesis by (simp only: floor_le_ceiling order_refl simp_thms)
next
  case False
  then have "of_int \<lfloor>y\<rfloor> \<noteq> y" by (rule not_sym)
  then have "of_int \<lfloor>y\<rfloor> < y"
    using of_int_floor_le by (rule order.not_eq_order_implies_strict)
  moreover have "y \<le> of_int \<lfloor>y\<rfloor> + 1" by linarith
  ultimately have c: "\<lceil>y\<rceil> = \<lfloor>y\<rfloor> + 1" by (rule ceiling_eq)
  have "\<lfloor>y\<rfloor> \<le> round_half_even y \<and> round_half_even y \<le> \<lfloor>y\<rfloor> + 1"
    unfolding round_half_even_def Let_def by (auto split: if_splits)
  then show ?thesis by (simp only: c)
qed

lemma scale2_powi: "scale2 x e = x * 2 powi e"
proof (cases "0 \<le> e")
  case True
  then show ?thesis by (simp add: scale2_def power_int_def)
next
  case False
  then have "(2::real) powi e = inverse (2 ^ nat (- e))"
    by (simp add: power_int_def power_one_over inverse_eq_divide)
  with False show ?thesis by (simp add: scale2_def field_simps)
qed

lemma float_round_nearest:
  assumes "x \<noteq> 0"
  shows "\<exists>m e. float_round x = scale2 (of_int m) e \<and> 2 ^ 52 \<le> \<bar>m\<bar> \<and> \<bar>m\<bar> \<le> 2 ^ 53 \<and>
           \<bar>float_round x - x\<bar> \<le> scale2 (1 / 2) e"
proof -
  define k where "k = floor_log2 \<bar>x\<bar>"
  define e where "e = k - 52"
  define y where "y = scale2 x (- e)"
  define m where "m = round_half_even y"
  have fr: "float_round x = scale2 (of_int m) e"
    using assms by (simp add: float_round_def Let_def m_def y_def e_def k_def)
  from assms have "0 < \<bar>x\<bar>" by simp
  from floor_log2_bounds[OF this]
  have lo: "2 powi k \<le> \<bar>x\<bar>" and hi: "\<bar>x\<bar> < 2 powi (k + 1)"
    by (simp_all add: scale2_powi k_def)
  have pos: "(0::real) < 2 powi (- e)" by simp
  have ay: "\<bar>y\<bar> = \<bar>x\<bar> * 2 powi (- e)" by (simp add: y_def scale2_powi abs_mult)
  have "2 powi k * 2 powi (- e) \<le> \<bar>x\<bar> * 2 powi (- e)"
    using lo pos by (simp only: mult_le_cancel_right_pos)
  moreover have "(2::real) powi k * 2 powi (- e) = 2 powi 52"
    by (simp add: e_def flip: power_int_add)
  ultimately have ylo: "2 ^ 52 \<le> \<bar>y\<bar>" by (simp add: ay)
  have "\<bar>x\<bar> * 2 powi (- e) < 2 powi (k + 1) * 2 powi (- e)"
    using hi pos by (simp only: mult_less_cancel_right_pos)
  moreover have "(2::real) powi (k + 1) * 2 powi (- e) = 2 powi 53"
    by (simp add: e_def flip: power_int_add)
  ultimately have yhi: "\<bar>y\<bar> < 2 ^ 53" by (simp add: ay)
  note btw = round_half_even_between[of y, folded m_def]
  define a :: int where "a = 2 ^ 52"
  define b :: int where "b = 2 ^ 53"
  have a: "0 < a" by (simp add: a_def)
  from ylo yhi have yab: "of_int a \<le> \<bar>y\<bar>" "\<bar>y\<bar> < of_int b" by (simp_all add: a_def b_def)
  have "a \<le> \<bar>m\<bar> \<and> \<bar>m\<bar> \<le> b"
  proof (cases "0 \<le> y")
    case True
    with yab have "of_int a \<le> y" "y \<le> of_int b" by simp_all
    then have "a \<le> \<lfloor>y\<rfloor>" "\<lceil>y\<rceil> \<le> b"
      by (simp_all only: le_floor_iff ceiling_le_iff)
    with btw a show ?thesis by linarith
  next
    case False
    with yab have "y \<le> of_int (- a)" "of_int (- b) \<le> y" by simp_all
    then have "\<lceil>y\<rceil> \<le> - a" "- b \<le> \<lfloor>y\<rfloor>"
      by (simp_all only: le_floor_iff ceiling_le_iff)
    with btw a show ?thesis by linarith
  qed
  then have mb: "2 ^ 52 \<le> \<bar>m\<bar> \<and> \<bar>m\<bar> \<le> 2 ^ 53" by (simp only: a_def b_def)
  have "float_round x - x = scale2 (of_int m) e - scale2 y e"
    by (simp add: fr y_def scale2_inverse)
  also have "\<dots> = (of_int m - y) * 2 powi e" by (simp add: scale2_powi algebra_simps)
  finally have "\<bar>float_round x - x\<bar> = \<bar>of_int m - y\<bar> * 2 powi e"
    by (simp add: abs_mult)
  also have "\<dots> \<le> (1 / 2) * 2 powi e"
    using round_half_even_error[of y, folded m_def]
    by (intro mult_right_mono) simp_all
  finally have err: "\<bar>float_round x - x\<bar> \<le> scale2 (1 / 2) e" by (simp add: scale2_powi)
  from fr mb err show ?thesis by blast
qed

subsection \<open>Totals by category\<close>







subsection \<open>The weekly spending planner\<close>

text \<open>
  C10, as the claim states it, fails. With a pocket money of 1000 and seven percentages
  of 10 (a total of 70) the plan is the equal distribution, each day's amount is
  142.85714285714286, and the seven amounts add up to 1000.0000000000001 as floats and
  to no 1000 exactly either; with a pocket money of 100 each day's amount is
  14.285714285714285, and \<^verbatim>\<open>100.0 / 7\<close> is 14.285714285714286.
\<close>

theorem spending_plan_counterexample:
  "\<bar>float_sub (total_percentage_of (\<lambda>day. 10)) 100\<bar> > float_round 0.1 \<and>
   daily_amounts 1000 True (\<lambda>day. 10) = replicate 7 (5026338869833143 / 35184372088832) \<and>
   float_sum (daily_amounts 1000 True (\<lambda>day. 10)) = 8796093022208001 / 8796093022208 \<and>
   float_sum (daily_amounts 1000 True (\<lambda>day. 10)) \<noteq> 1000 \<and>
   sum_list (daily_amounts 1000 True (\<lambda>day. 10)) \<noteq> 1000 \<and>
   daily_amounts 100 True (\<lambda>day. 10) = replicate 7 (2010535547933257 / 140737488355328) \<and>
   float_div 100 7 = 8042142191733029 / 562949953421312 \<and>
   daily_amounts 100 True (\<lambda>day. 10) \<noteq> replicate 7 (float_div 100 7)"
proof -
  have far: "\<bar>float_sub (total_percentage_of (\<lambda>day. 10)) 100\<bar> > float_round 0.1"
    by code_simp
  have a: "daily_amounts 1000 True (\<lambda>day. 10)
             = replicate 7 (5026338869833143 / 35184372088832)"
    by code_simp
  have s: "float_sum (daily_amounts 1000 True (\<lambda>day. 10)) = 8796093022208001 / 8796093022208"
    by code_simp
  have s': "float_sum (daily_amounts 1000 True (\<lambda>day. 10)) \<noteq> 1000"
    unfolding s by simp
  have t: "sum_list (daily_amounts 1000 True (\<lambda>day. 10)) \<noteq> 1000"
    unfolding a by (simp add: sum_list_replicate)
  have b: "daily_amounts 100 True (\<lambda>day. 10)
             = replicate 7 (2010535547933257 / 140737488355328)"
    by code_simp
  have d: "float_div 100 7 = 8042142191733029 / 562949953421312"
    by code_simp
  have n: "daily_amounts 100 True (\<lambda>day. 10) \<noteq> replicate 7 (float_div 100 7)"
    unfolding b d by simp
  from far a s s' t b d n show ?thesis by (intro conjI)
qed

lemma total_percentage_sum: "total_percentage_of pct = float_sum (percentages_of pct)"
  by (simp add: total_percentage_of_def float_sum_def percentages_of_def fold_map comp_def)

text \<open>
  C10, amended. With the custom distribution switched on, the planner reads seven
  percentages and adds them up as floats. When that total differs from 100 by more
  than 0.1, the plan is the equal distribution, the double \<^verbatim>\<open>1/7\<close> for each day, and
  each day's amount is the float product of the pocket money and \<^verbatim>\<open>1/7\<close>. When the
  total is within 0.1 of 100, each day's amount is the float product of the pocket money
  and the day's percentage divided by 100.
\<close>

theorem spending_plan_distribution:
  "length (percentages_of pct) = 7 \<and>
   total_percentage_of pct = float_sum (percentages_of pct) \<and>
   (\<bar>float_sub (total_percentage_of pct) 100\<bar> > float_round 0.1 \<longrightarrow>
      distribution_of True pct = replicate 7 (float_div 1 7) \<and>
      daily_amounts pocket_money True pct = replicate 7 (float_mul pocket_money (float_div 1 7))) \<and>
   (\<bar>float_sub (total_percentage_of pct) 100\<bar> \<le> float_round 0.1 \<longrightarrow>
      daily_amounts pocket_money True pct
        = map (\<lambda>p. float_mul pocket_money (float_div p 100)) (percentages_of pct))"
proof (intro conjI impI)
  show "length (percentages_of pct) = 7"
    by (simp add: percentages_of_def days_of_week_def)
  show "total_percentage_of pct = float_sum (percentages_of pct)"
    by (rule total_percentage_sum)
next
  assume far: "\<bar>float_sub (total_percentage_of pct) 100\<bar> > float_round 0.1"
  then show dist: "distribution_of True pct = replicate 7 (float_div 1 7)"
    by (simp add: distribution_of_def default_distribution_def)
  then show "daily_amounts pocket_money True pct
      = replicate 7 (float_mul pocket_money (float_div 1 7))"
    by (simp add: daily_amounts_def)
next
  assume near: "\<bar>float_sub (total_percentage_of pct) 100\<bar> \<le> float_round 0.1"
  then have "distribution_of True pct = map (\<lambda>p. float_div p 100) (percentages_of pct)"
    by (simp add: distribution_of_def)
  then show "daily_amounts pocket_money True pct
        = map (\<lambda>p. float_mul pocket_money (float_div p 100)) (percentages_of pct)"
    by (simp add: daily_amounts_def comp_def)
qed

theorem spending_plan_distribution_witness:
  "\<bar>float_sub (total_percentage_of (\<lambda>day. 10)) 100\<bar> > float_round 0.1 \<and>
   daily_amounts 700 True (\<lambda>day. 10) = replicate 7 (float_mul 700 (float_div 1 7)) \<and>
   \<bar>float_sub (total_percentage_of (\<lambda>day. if day = ''Sunday'' then 40 else 10)) 100\<bar>
     \<le> float_round 0.1 \<and>
   daily_amounts 700 True (\<lambda>day. if day = ''Sunday'' then 40 else 10)
     = map (\<lambda>p. float_mul 700 (float_div p 100)) [10, 10, 10, 10, 10, 10, 40]"
proof -
  have far: "\<bar>float_sub (total_percentage_of (\<lambda>day. 10)) 100\<bar> > float_round 0.1"
    by code_simp
  have near: "\<bar>float_sub (total_percentage_of (\<lambda>day. if day = ''Sunday'' then 40 else 10)) 100\<bar>
     \<le> float_round 0.1"
    by code_simp
  from spending_plan_distribution[of "\<lambda>day. 10" 700] far
  have a: "daily_amounts 700 True (\<lambda>day. 10) = replicate 7 (float_mul 700 (float_div 1 7))"
    by blast
  from spending_plan_distribution[of "\<lambda>day. if day = ''Sunday'' then 40 else 10" 700] near
  have b: "daily_amounts 700 True (\<lambda>day. if day = ''Sunday'' then 40 else 10)
     = map (\<lambda>p. float_mul 700 (float_div p 100))
         (percentages_of (\<lambda>day. if day = ''Sunday'' then 40 else 10))"
    by blast
  have b': "percentages_of (\<lambda>day. if day = ''Sunday'' then 40 else 10)
      = [10, 10, 10, 10, 10, 10, 40::real]"
    by (simp add: percentages_of_def days_of_week_def)
  show ?thesis using far near a b unfolding b' by blast
qed

end
